theory Spec2Isabelle
  imports Main
begin

section \<open>Text helpers\<close>

text \<open>
  JavaScript strings are modelled as lists of the code units below 256 (Latin-1).
  \<open>toLowerCase\<close> folds \<open>A\<close>..\<open>Z\<close> and the capital letters \<open>0xC0\<close>..\<open>0xDE\<close> (not the
  multiplication sign \<open>0xD7\<close>); \<open>trim\<close> strips the white space and line terminators
  of that range, the no-break space \<open>0xA0\<close> among them.
\<close>

definition lowerChar :: "char \<Rightarrow> char" where
  "lowerChar c =
     (let n = (of_char c :: nat)
      in if (65 \<le> n \<and> n \<le> 90) \<or> (192 \<le> n \<and> n \<le> 222 \<and> n \<noteq> 215)
         then char_of (n + 32) else c)"

definition toLowerCase :: "string \<Rightarrow> string" where
  "toLowerCase s = map lowerChar s"

definition startsWith :: "string \<Rightarrow> string \<Rightarrow> bool" where
  "startsWith s p = (take (length p) s = p)"

definition includesChar :: "string \<Rightarrow> char \<Rightarrow> bool" where
  "includesChar s c = (c \<in> set s)"

definition isSpace :: "char \<Rightarrow> bool" where
  "isSpace c =
     (c \<in> set [CHR '' '', CHR 0x09, CHR 0x0A, CHR 0x0B, CHR 0x0C, CHR 0x0D, CHR 0xA0])"

definition trim :: "string \<Rightarrow> string" where
  "trim s = rev (dropWhile isSpace (rev (dropWhile isSpace s)))"

text \<open>\<open>s.split(c)\<close> for a one-character separator: the pieces between the separators.\<close>

fun splitOn :: "char \<Rightarrow> string \<Rightarrow> string list" where
  "splitOn c [] = [[]]"
| "splitOn c (x # xs) =
     (if x = c then [] # splitOn c xs
      else (case splitOn c xs of [] \<Rightarrow> [[x]] | t # ts \<Rightarrow> (x # t) # ts))"

text \<open>
  \<open>s.split(/ +/)\<close>: the pieces between maximal runs of spaces. \<open>cur\<close> is the piece being
  read (reversed), \<open>inSep\<close> says that the previous character belonged to a separator.
\<close>

fun splitSpacesAux :: "string \<Rightarrow> bool \<Rightarrow> string \<Rightarrow> string list" where
  "splitSpacesAux cur inSep [] = [rev cur]"
| "splitSpacesAux cur inSep (x # xs) =
     (if x = CHR '' '' then
        (if inSep then splitSpacesAux cur True xs
         else rev cur # splitSpacesAux [] True xs)
      else splitSpacesAux (x # cur) False xs)"

definition splitSpaces :: "string \<Rightarrow> string list" where
  "splitSpaces s = splitSpacesAux [] False s"

text \<open>\<open>Array.prototype.some\<close>.\<close>

primrec some :: "('a \<Rightarrow> bool) \<Rightarrow> 'a list \<Rightarrow> bool" where
  "some P [] = False"
| "some P (x # xs) = (P x \<or> some P xs)"

text \<open>\<open>Array.prototype.find\<close>: the first element that satisfies the predicate.\<close>

primrec findFirst :: "('a \<Rightarrow> bool) \<Rightarrow> 'a list \<Rightarrow> 'a option" where
  "findFirst P [] = None"
| "findFirst P (x # xs) = (if P x then Some x else findFirst P xs)"

text \<open>Decimal rendering of an id inside a template string.\<close>

function showNat :: "nat \<Rightarrow> string" where
  "showNat n =
     (if n < 10 then [char_of (48 + n)]
      else showNat (n div 10) @ [char_of (48 + n mod 10)])"
  by pat_completeness auto
termination
  by (relation "measure (\<lambda>n. n)") auto

declare showNat.simps [simp del]


section \<open>Data model (shared/schema)\<close>

text \<open>
  Timestamps are milliseconds as \<open>int\<close>; a nullable column is an \<open>option\<close>. The
  \<open>status\<close> column is free text in the schema (\<open>available\<close>, \<open>generated\<close>, \<open>expired\<close>).
\<close>

record Account =
  a_id :: nat
  a_email :: string
  a_password :: string
  a_categoryId :: nat
  a_status :: string
  a_expiresAt :: "int option"
  a_generatedBy :: "string option"
  a_generatedAt :: "int option"
  a_createdAt :: int
  a_updatedAt :: int

text \<open>\<open>InsertAccount\<close>: the columns a caller supplies on insert.\<close>

record InsertAccount =
  ia_email :: string
  ia_password :: string
  ia_categoryId :: nat
  ia_status :: string
  ia_expiresAt :: "int option"
  ia_generatedBy :: "string option"
  ia_generatedAt :: "int option"

text \<open>
  \<open>Partial<InsertAccount>\<close>: every key may be absent (\<open>None\<close>); a present nullable key
  carries its own \<open>option\<close>.
\<close>

record AccountUpdate =
  up_email :: "string option"
  up_password :: "string option"
  up_categoryId :: "nat option"
  up_status :: "string option"
  up_expiresAt :: "int option option"
  up_generatedBy :: "string option option"
  up_generatedAt :: "int option option"

definition noUpdate :: AccountUpdate where
  "noUpdate = \<lparr>up_email = None, up_password = None, up_categoryId = None, up_status = None,
     up_expiresAt = None, up_generatedBy = None, up_generatedAt = None\<rparr>"

record AccountCategory =
  c_id :: nat
  c_name :: string
  c_description :: "string option"
  c_createdAt :: int

record BotSettings =
  s_id :: nat
  s_guildId :: string
  s_prefix :: string
  s_allowedRoles :: "string list option"
  s_adminRoles :: "string list option"
  s_cooldown :: int
  s_createdAt :: int
  s_updatedAt :: int

record Log =
  l_id :: nat
  l_type :: string
  l_action :: string
  l_message :: string
  l_userId :: "nat option"
  l_createdAt :: int

record User =
  u_id :: nat
  u_username :: string
  u_password :: string
  u_isAdmin :: bool

text \<open>
  The database: each table is the list of its rows in the order in which an unordered
  \<open>select\<close> returns them (a rewritten row comes last), with the next value of each serial
  id.
\<close>

record Store =
  users :: "User list"
  accounts :: "Account list"
  categories :: "AccountCategory list"
  botSettings :: "BotSettings list"
  logs :: "Log list"
  accountSeq :: nat
  categorySeq :: nat
  settingsSeq :: nat
  logSeq :: nat


section \<open>DatabaseStorage\<close>

definition createLog :: "int \<Rightarrow> string \<Rightarrow> string \<Rightarrow> string \<Rightarrow> nat option \<Rightarrow> Store \<Rightarrow> Store" where
  "createLog now ty action msg uid st =
     st\<lparr>logs := logs st @
            [\<lparr>l_id = logSeq st, l_type = ty, l_action = action, l_message = msg,
              l_userId = uid, l_createdAt = now\<rparr>],
        logSeq := Suc (logSeq st)\<rparr>"


definition getAccount :: "Store \<Rightarrow> nat \<Rightarrow> Account option" where
  "getAccount st i = findFirst (\<lambda>a. a_id a = i) (accounts st)"

text \<open>
  \<open>getAccounts(filters)\<close> of \<open>DatabaseStorage\<close>, the exported storage. Each
  \<open>query = query.where(...)\<close> sets the condition of the query and replaces the one set
  before it, so the last filter that applies is the only one: the search if there is one,
  else the status (unless empty or \<open>all\<close>), else the category. There is no \<open>orderBy\<close>.
  The \<open>like\<close> pattern is read as a substring test on the lowered email.
\<close>

fun isInfix :: "string \<Rightarrow> string \<Rightarrow> bool" where
  "isInfix p [] = (p = [])"
| "isInfix p (x # xs) = (take (length p) (x # xs) = p \<or> isInfix p xs)"

definition getAccounts :: "Store \<Rightarrow> nat option \<Rightarrow> string option \<Rightarrow> string option \<Rightarrow> Account list" where
  "getAccounts st categoryId status search =
     (let w0 = None;
          w1 = (case categoryId of None \<Rightarrow> w0 | Some c \<Rightarrow> Some (\<lambda>a. a_categoryId a = c));
          w2 = (case status of
                  None \<Rightarrow> w1
                | Some s \<Rightarrow> if s \<noteq> [] \<and> s \<noteq> ''all'' then Some (\<lambda>a. a_status a = s) else w1);
          w3 = (case search of
                  None \<Rightarrow> w2
                | Some q \<Rightarrow>
                    if q \<noteq> []
                    then Some (\<lambda>a. isInfix (toLowerCase q) (toLowerCase (a_email a)))
                    else w2)
      in case w3 of None \<Rightarrow> accounts st | Some cond \<Rightarrow> filter cond (accounts st))"

definition createAccount :: "int \<Rightarrow> InsertAccount \<Rightarrow> Store \<Rightarrow> Account \<times> Store" where
  "createAccount now ia st =
     (let account = \<lparr>a_id = accountSeq st, a_email = ia_email ia, a_password = ia_password ia,
            a_categoryId = ia_categoryId ia, a_status = ia_status ia,
            a_expiresAt = ia_expiresAt ia, a_generatedBy = ia_generatedBy ia,
            a_generatedAt = ia_generatedAt ia, a_createdAt = now, a_updatedAt = now\<rparr>;
          st1 = st\<lparr>accounts := accounts st @ [account], accountSeq := Suc (accountSeq st)\<rparr>
      in (account,
          createLog now ''info'' ''ACCOUNT_CREATED''
            (''Account created: '' @ a_email account @ '' ('' @ showNat (a_id account) @ '')'')
            None st1))"

definition applyUpdate :: "int \<Rightarrow> AccountUpdate \<Rightarrow> Account \<Rightarrow> Account" where
  "applyUpdate now up a =
     a\<lparr>a_email := (case up_email up of None \<Rightarrow> a_email a | Some v \<Rightarrow> v),
       a_password := (case up_password up of None \<Rightarrow> a_password a | Some v \<Rightarrow> v),
       a_categoryId := (case up_categoryId up of None \<Rightarrow> a_categoryId a | Some v \<Rightarrow> v),
       a_status := (case up_status up of None \<Rightarrow> a_status a | Some v \<Rightarrow> v),
       a_expiresAt := (case up_expiresAt up of None \<Rightarrow> a_expiresAt a | Some v \<Rightarrow> v),
       a_generatedBy := (case up_generatedBy up of None \<Rightarrow> a_generatedBy a | Some v \<Rightarrow> v),
       a_generatedAt := (case up_generatedAt up of None \<Rightarrow> a_generatedAt a | Some v \<Rightarrow> v),
       a_updatedAt := now\<rparr>"

text \<open>
  \<open>updateAccount(id, updateData)\<close>: \<open>undefined\<close> when no row has the id; otherwise the row
  is rewritten and an \<open>ACCOUNT_UPDATED\<close> entry is logged. The database returns a
  rewritten row after the rows it has not touched.
\<close>

definition updateAccount :: "int \<Rightarrow> nat \<Rightarrow> AccountUpdate \<Rightarrow> Store \<Rightarrow> Account option \<times> Store" where
  "updateAccount now i up st =
     (case getAccount st i of
        None \<Rightarrow> (None, st)
      | Some account \<Rightarrow>
          (let updatedAccount = applyUpdate now up account;
               st1 = st\<lparr>accounts :=
                        filter (\<lambda>a. a_id a \<noteq> i) (accounts st) @
                        map (applyUpdate now up) (filter (\<lambda>a. a_id a = i) (accounts st))\<rparr>
           in (Some updatedAccount,
               createLog now ''info'' ''ACCOUNT_UPDATED''
                 (''Account updated: '' @ a_email updatedAccount @ '' ('' @
                    showNat (a_id updatedAccount) @ '')'')
                 None st1)))"

definition getCategoryByName :: "Store \<Rightarrow> string \<Rightarrow> AccountCategory option" where
  "getCategoryByName st name =
     findFirst (\<lambda>c. toLowerCase (c_name c) = toLowerCase name) (categories st)"

definition getCategories :: "Store \<Rightarrow> AccountCategory list" where
  "getCategories st = categories st"

definition createCategory :: "int \<Rightarrow> string \<Rightarrow> string option \<Rightarrow> Store \<Rightarrow> AccountCategory \<times> Store" where
  "createCategory now name description st =
     (let category = \<lparr>c_id = categorySeq st, c_name = name, c_description = description,
            c_createdAt = now\<rparr>
      in (category,
          st\<lparr>categories := categories st @ [category], categorySeq := Suc (categorySeq st)\<rparr>))"

definition getBotSettings :: "Store \<Rightarrow> string \<Rightarrow> BotSettings option" where
  "getBotSettings st guildId = findFirst (\<lambda>s. s_guildId s = guildId) (botSettings st)"

definition createBotSettings ::
  "int \<Rightarrow> string \<Rightarrow> string \<Rightarrow> string list option \<Rightarrow> string list option \<Rightarrow> int \<Rightarrow> Store
     \<Rightarrow> BotSettings \<times> Store" where
  "createBotSettings now guildId pre allowed admin cooldown st =
     (let settings = \<lparr>s_id = settingsSeq st, s_guildId = guildId, s_prefix = pre,
            s_allowedRoles = allowed, s_adminRoles = admin, s_cooldown = cooldown,
            s_createdAt = now, s_updatedAt = now\<rparr>
      in (settings,
          st\<lparr>botSettings := botSettings st @ [settings], settingsSeq := Suc (settingsSeq st)\<rparr>))"


section \<open>The chat message and the permission helpers (discordBot)\<close>

record Member =
  mb_roles :: "string list"
  mb_administrator :: bool

text \<open>
  What the handlers read of a \<open>Message\<close>: the author, the guild id (absent in a direct
  message), the guild member (may be absent), the text, and whether a private message to
  the author can be delivered (\<open>message.author.send\<close> throws when it cannot).
\<close>

record Message =
  m_authorBot :: bool
  m_authorId :: string
  m_authorTag :: string
  m_guild :: "string option"
  m_member :: "Member option"
  m_content :: string
  m_dmOpen :: bool

text \<open>\<open>process.env.DISCORD_OWNER_ID\<close>.\<close>

record Env =
  ownerId :: "string option"

definition memberHasRole :: "Message \<Rightarrow> string \<Rightarrow> bool" where
  "memberHasRole msg roleId =
     (case m_member msg of None \<Rightarrow> False | Some mb \<Rightarrow> roleId \<in> set (mb_roles mb))"

definition memberIsAdministrator :: "Message \<Rightarrow> bool" where
  "memberIsAdministrator msg =
     (case m_member msg of None \<Rightarrow> False | Some mb \<Rightarrow> mb_administrator mb)"

definition isAdmin :: "Env \<Rightarrow> Store \<Rightarrow> Message \<Rightarrow> bool" where
  "isAdmin env st msg =
     (case m_guild msg of
        None \<Rightarrow> (ownerId env = Some (m_authorId msg))
      | Some g \<Rightarrow>
          (case getBotSettings st g of
             None \<Rightarrow> memberIsAdministrator msg
           | Some settings \<Rightarrow>
               (case s_adminRoles settings of
                  None \<Rightarrow> memberIsAdministrator msg
                | Some rs \<Rightarrow>
                    if rs = [] then memberIsAdministrator msg
                    else some (memberHasRole msg) rs \<or> memberIsAdministrator msg)))"

definition hasPermission :: "Env \<Rightarrow> Store \<Rightarrow> Message \<Rightarrow> bool" where
  "hasPermission env st msg =
     (case m_guild msg of
        None \<Rightarrow> True
      | Some g \<Rightarrow>
          (case getBotSettings st g of
             None \<Rightarrow> True
           | Some settings \<Rightarrow>
               (case s_allowedRoles settings of
                  None \<Rightarrow> True
                | Some rs \<Rightarrow>
                    if rs = [] then True
                    else some (memberHasRole msg) rs \<or> isAdmin env st msg)))"

text \<open>
  The scope's list of allowed roles as the permission check reads it: empty in a direct
  message, for a guild without settings and for a null column.
\<close>

definition allowedRoleIds :: "Store \<Rightarrow> Message \<Rightarrow> string list" where
  "allowedRoleIds st msg =
     (case m_guild msg of
        None \<Rightarrow> []
      | Some g \<Rightarrow>
          (case getBotSettings st g of
             None \<Rightarrow> []
           | Some settings \<Rightarrow> (case s_allowedRoles settings of None \<Rightarrow> [] | Some rs \<Rightarrow> rs)))"


section \<open>Command handlers (discordBot)\<close>

text \<open>
  The channel replies of the handlers, one constructor for each message text, carrying the
  values interpolated into it; and the private message that delivers the credentials.
  The storage calls of the model always return, so the \<open>catch\<close> branches that only a
  failing storage call reaches are not part of it; the one failure the handlers are
  modelled with is the private message that cannot be delivered.
\<close>

datatype Reply =
    AccessDenied
  | AdminAccessDenied
  | GenerateUsage string
  | ServiceNotFound string "string list"
  | StockExhausted string
  | GenerateSuccess string
  | DMError
  | SystemError
  | AddUsage string
  | InvalidFormat
  | AccountAdded string string

datatype DirectMessage = AccountDetails string string string "int option"

record Outbox =
  replies :: "Reply list"
  dms :: "DirectMessage list"

definition replyWith :: "Reply \<Rightarrow> Outbox" where
  "replyWith r = \<lparr>replies = [r], dms = []\<rparr>"

definition noOutput :: Outbox where
  "noOutput = \<lparr>replies = [], dms = []\<rparr>"

text \<open>
  \<open>handleGenerateCommand\<close> up to the choice of the account (its awaited reads): either the
  handler has already returned, with the store and the reply it leaves, or it holds the
  first row of \<open>getAccounts({categoryId, status: "available"})\<close>, which the storage answers
  by status alone. There is no cooldown check (the source leaves it out) and \<open>expiresAt\<close>
  is not read.
\<close>

datatype Selection = Returned Store Outbox | Selected Account AccountCategory

definition generateSelect ::
  "Env \<Rightarrow> int \<Rightarrow> Message \<Rightarrow> string list \<Rightarrow> BotSettings \<Rightarrow> Store \<Rightarrow> Selection" where
  "generateSelect env now msg args settings st =
     (if \<not> hasPermission env st msg then Returned st (replyWith AccessDenied)
      else
        (case args of
           [] \<Rightarrow> Returned st (replyWith (GenerateUsage (s_prefix settings)))
         | a # _ \<Rightarrow>
             (let serviceName = toLowerCase a in
              if serviceName = [] then Returned st (replyWith (GenerateUsage (s_prefix settings)))
              else
                (case getCategoryByName st serviceName of
                   None \<Rightarrow>
                     Returned st
                       (replyWith (ServiceNotFound serviceName (map c_name (getCategories st))))
                 | Some category \<Rightarrow>
                     (case getAccounts st (Some (c_id category)) (Some ''available'') None of
                        [] \<Rightarrow>
                          Returned
                            (createLog now ''warning'' ''ACCOUNT_GENERATION_FAILED''
                               (''No available accounts for '' @ serviceName) None st)
                            (replyWith (StockExhausted (c_name category)))
                      | account # _ \<Rightarrow> Selected account category)))))"

text \<open>
  The rest of the handler: mark the chosen account as generated, log, send the private
  message, confirm in the channel; when the private message fails, set the status back to
  \<open>available\<close> (only the status) and report the failure.
\<close>

definition generateMark ::
  "int \<Rightarrow> Message \<Rightarrow> Account \<Rightarrow> AccountCategory \<Rightarrow> Store \<Rightarrow> Store \<times> Outbox" where
  "generateMark now msg account category st =
     (let st1 = snd (updateAccount now (a_id account)
                  (noUpdate\<lparr>up_status := Some ''generated'',
                     up_generatedBy := Some (Some (m_authorTag msg)),
                     up_generatedAt := Some (Some now)\<rparr>) st);
          st2 = createLog now ''success'' ''ACCOUNT_GENERATED''
                  (''Account generated for '' @ m_authorTag msg @ '': '' @ a_email account @
                     '' ('' @ c_name category @ '')'') None st1
      in if m_dmOpen msg then
           (st2, \<lparr>replies = [GenerateSuccess (c_name category)],
                  dms = [AccountDetails (c_name category) (a_email account)
                           (a_password account) (a_expiresAt account)]\<rparr>)
         else
           (snd (updateAccount now (a_id account)
                   (noUpdate\<lparr>up_status := Some ''available''\<rparr>) st2),
            replyWith DMError))"

definition handleGenerateCommand ::
  "Env \<Rightarrow> int \<Rightarrow> Message \<Rightarrow> string list \<Rightarrow> BotSettings \<Rightarrow> Store \<Rightarrow> Store \<times> Outbox" where
  "handleGenerateCommand env now msg args settings st =
     (case generateSelect env now msg args settings st of
        Returned st' out \<Rightarrow> (st', out)
      | Selected account category \<Rightarrow> generateMark now msg account category st)"

text \<open>
  \<open>handleAddCommand\<close>. \<open>[email, password] = accountDetails.split(':')\<close> takes the first two
  pieces; the format check before it makes sure there are two.
\<close>

definition handleAddCommand ::
  "Env \<Rightarrow> int \<Rightarrow> Message \<Rightarrow> string list \<Rightarrow> BotSettings \<Rightarrow> Store \<Rightarrow> Store \<times> Outbox" where
  "handleAddCommand env now msg args settings st =
     (if \<not> isAdmin env st msg then (st, replyWith AdminAccessDenied)
      else
        (case args of
           serviceName # accountDetails # _ \<Rightarrow>
             if \<not> includesChar accountDetails (CHR '':'') then (st, replyWith InvalidFormat)
             else
               (case splitOn (CHR '':'') accountDetails of
                  email # password # _ \<Rightarrow>
                    (let (category, st1) =
                           (case getCategoryByName st serviceName of
                              Some c \<Rightarrow> (c, st)
                            | None \<Rightarrow>
                                createCategory now serviceName
                                  (Some (serviceName @ '' accounts'')) st);
                         (account, st2) =
                           createAccount now
                             \<lparr>ia_email = email, ia_password = password,
                              ia_categoryId = c_id category, ia_status = ''available'',
                              ia_expiresAt = None, ia_generatedBy = None,
                              ia_generatedAt = None\<rparr> st1;
                         st3 = createLog now ''success'' ''ACCOUNT_ADDED''
                                 (''Admin '' @ m_authorTag msg @ '' added account: '' @ email @
                                    '' ('' @ c_name category @ '')'') None st2
                     in (st3, replyWith (AccountAdded serviceName email)))
                | _ \<Rightarrow>
                    (createLog now ''error'' ''ACCOUNT_ADD_ERROR''
                       ''Error adding account: Unknown error'' None st,
                     replyWith SystemError))
         | _ \<Rightarrow> (st, replyWith (AddUsage (s_prefix settings)))))"


subsection \<open>Two generate handlers in flight\<close>

text \<open>
  A handler gives up control at each \<open>await\<close>. Between the awaited \<open>getAccounts\<close> and the
  awaited \<open>updateAccount\<close> another message's handler may run; a task is a handler stopped
  before its reads, stopped between the choice and the update, or finished.
\<close>

datatype Task =
    Pending Message "string list" BotSettings
  | Chosen Message Account AccountCategory
  | Done Outbox

definition stepTask :: "Env \<Rightarrow> int \<Rightarrow> Task \<Rightarrow> Store \<Rightarrow> Store \<times> Task" where
  "stepTask env now t st =
     (case t of
        Pending msg args settings \<Rightarrow>
          (case generateSelect env now msg args settings st of
             Returned st' out \<Rightarrow> (st', Done out)
           | Selected account category \<Rightarrow> (st, Chosen msg account category))
      | Chosen msg account category \<Rightarrow>
          (let (st', out) = generateMark now msg account category st in (st', Done out))
      | Done out \<Rightarrow> (st, Done out))"

text \<open>
  Two handlers under a schedule: \<open>False\<close> lets the first one run to its next \<open>await\<close>,
  \<open>True\<close> the second one.
\<close>

fun runSchedule :: "Env \<Rightarrow> int \<Rightarrow> bool list \<Rightarrow> Store \<times> Task \<times> Task \<Rightarrow> Store \<times> Task \<times> Task" where
  "runSchedule env now [] cfg = cfg"
| "runSchedule env now (b # bs) (st, t1, t2) =
     (if b then (let (st', t2') = stepTask env now t2 st in runSchedule env now bs (st', t1, t2'))
      else (let (st', t1') = stepTask env now t1 st in runSchedule env now bs (st', t1', t2)))"


subsection \<open>The message handler\<close>

text \<open>
  The settings of the message's scope: the guild's stored row, created with the defaults
  on the guild's first message; fixed defaults in a direct message.
\<close>

definition resolveSettings :: "int \<Rightarrow> Message \<Rightarrow> Store \<Rightarrow> BotSettings \<times> Store" where
  "resolveSettings now msg st =
     (case m_guild msg of
        Some g \<Rightarrow>
          (case getBotSettings st g of
             Some settings \<Rightarrow> (settings, st)
           | None \<Rightarrow> createBotSettings now g ''!'' (Some []) (Some []) 3600 st)
      | None \<Rightarrow>
          (\<lparr>s_id = 0, s_guildId = ''dm'', s_prefix = ''!'', s_allowedRoles = Some [],
            s_adminRoles = Some [], s_cooldown = 3600, s_createdAt = now, s_updatedAt = now\<rparr>,
           st))"

datatype Command =
    Generate | Stock | Add | Status | Help | Profile | Cooldown | Info | Remove | Blacklist
  | SetCooldown

text \<open>The labels of the \<open>switch\<close>; any other word falls to \<open>default\<close>.\<close>

definition commandNamed :: "string \<Rightarrow> Command option" where
  "commandNamed w =
     (if w = ''generate'' then Some Generate
      else if w = ''stock'' then Some Stock
      else if w = ''add'' then Some Add
      else if w = ''status'' then Some Status
      else if w = ''help'' then Some Help
      else if w = ''profile'' then Some Profile
      else if w = ''cooldown'' then Some Cooldown
      else if w = ''info'' then Some Info
      else if w = ''remove'' then Some Remove
      else if w = ''blacklist'' then Some Blacklist
      else if w = ''setcooldown'' then Some SetCooldown
      else None)"

text \<open>
  \<open>args = content.slice(prefix.length).trim().split(/ +/)\<close> and
  \<open>command = args.shift()?.toLowerCase()\<close>.
\<close>

definition parseCommand :: "string \<Rightarrow> string \<Rightarrow> string option \<times> string list" where
  "parseCommand pre content =
     (case splitSpaces (trim (drop (length pre) content)) of
        [] \<Rightarrow> (None, [])
      | w # args \<Rightarrow> (Some (toLowerCase w), args))"

type_synonym Handler =
  "Env \<Rightarrow> int \<Rightarrow> Message \<Rightarrow> string list \<Rightarrow> BotSettings \<Rightarrow> Store \<Rightarrow> Store \<times> Outbox"

text \<open>
  The \<open>MessageCreate\<close> handler. \<open>handleGenerateCommand\<close> and \<open>handleAddCommand\<close> are the
  functions above; the nine other handlers are the parameter \<open>others\<close>.
\<close>

definition onMessage :: "(Command \<Rightarrow> Handler) \<Rightarrow> Env \<Rightarrow> int \<Rightarrow> Message \<Rightarrow> Store \<Rightarrow> Store \<times> Outbox" where
  "onMessage others env now msg st =
     (if m_authorBot msg then (st, noOutput)
      else
        (let (settings, st1) = resolveSettings now msg st;
             pre = s_prefix settings
         in if \<not> startsWith (m_content msg) pre then (st1, noOutput)
            else
              (let (command, args) = parseCommand pre (m_content msg) in
               case (case command of None \<Rightarrow> None | Some w \<Rightarrow> commandNamed w) of
                 Some Generate \<Rightarrow> handleGenerateCommand env now msg args settings st1
               | Some Add \<Rightarrow> handleAddCommand env now msg args settings st1
               | Some c \<Rightarrow> others c env now msg args settings st1
               | None \<Rightarrow> (st1, noOutput))))"


section \<open>Web login (auth)\<close>








section \<open>Example data\<close>

definition scopeG1 :: BotSettings where
  "scopeG1 = \<lparr>s_id = 1, s_guildId = ''g1'', s_prefix = ''!'', s_allowedRoles = Some [],
     s_adminRoles = Some [], s_cooldown = 3600, s_createdAt = 0, s_updatedAt = 0\<rparr>"

definition streaming :: AccountCategory where
  "streaming = \<lparr>c_id = 1, c_name = ''Streaming'', c_description = None, c_createdAt = 0\<rparr>"

definition accountA :: Account where
  "accountA = \<lparr>a_id = 1, a_email = ''a@x.com'', a_password = ''pw1'', a_categoryId = 1,
     a_status = ''available'', a_expiresAt = None, a_generatedBy = None,
     a_generatedAt = None, a_createdAt = 10, a_updatedAt = 10\<rparr>"

definition accountB :: Account where
  "accountB = \<lparr>a_id = 2, a_email = ''b@x.com'', a_password = ''pw2'', a_categoryId = 1,
     a_status = ''available'', a_expiresAt = None, a_generatedBy = None,
     a_generatedAt = None, a_createdAt = 20, a_updatedAt = 20\<rparr>"


text \<open>Account \<open>a@x.com\<close> after it was claimed and restocked at time 30.\<close>

definition restockedA :: Account where
  "restockedA = accountA\<lparr>a_updatedAt := 30\<rparr>"

text \<open>A second category, and an account of it that has been handed out.\<close>

definition vpn :: AccountCategory where
  "vpn = \<lparr>c_id = 2, c_name = ''VPN'', c_description = None, c_createdAt = 0\<rparr>"

definition takenVpn :: Account where
  "takenVpn = \<lparr>a_id = 7, a_email = ''vpn@x.com'', a_password = ''pw7'', a_categoryId = 2,
     a_status = ''generated'', a_expiresAt = None, a_generatedBy = Some ''U5#0005'',
     a_generatedAt = Some 8, a_createdAt = 1, a_updatedAt = 8\<rparr>"

text \<open>An account of the second category that is in stock.\<close>

definition freeVpn :: Account where
  "freeVpn = takenVpn\<lparr>a_status := ''available'', a_generatedBy := None,
     a_generatedAt := None, a_updatedAt := 1\<rparr>"

definition storeWith :: "Account list \<Rightarrow> Store" where
  "storeWith rows = \<lparr>users = [], accounts = rows, categories = [streaming],
     botSettings = [scopeG1], logs = [], accountSeq = 3, categorySeq = 2, settingsSeq = 2,
     logSeq = 1\<rparr>"

definition twoCategories :: "Account list \<Rightarrow> Store" where
  "twoCategories rows = (storeWith rows)\<lparr>categories := [streaming, vpn], categorySeq := 3,
     accountSeq := 8\<rparr>"

definition requester :: "string \<Rightarrow> string \<Rightarrow> bool \<Rightarrow> Message" where
  "requester uid tag dm = \<lparr>m_authorBot = False, m_authorId = uid, m_authorTag = tag,
     m_guild = Some ''g1'', m_member = Some \<lparr>mb_roles = [], mb_administrator = False\<rparr>,
     m_content = ''!generate streaming'', m_dmOpen = dm\<rparr>"

definition noOwner :: Env where
  "noOwner = \<lparr>ownerId = None\<rparr>"

text \<open>The same store with the guild's commands restricted to the role \<open>r1\<close>.\<close>

definition gated :: "Account list \<Rightarrow> Store" where
  "gated rows = (storeWith rows)\<lparr>botSettings := [scopeG1\<lparr>s_allowedRoles := Some [''r1'']\<rparr>]\<rparr>"

text \<open>A message with the guild's prefix and a word that is no command.\<close>

definition strangeMessage :: Message where
  "strangeMessage = (requester ''1'' ''U1#0001'' True)\<lparr>m_content := ''!foo bar''\<rparr>"

text \<open>The same message as the first one ever seen from guild \<open>g2\<close>.\<close>

definition firstContact :: Message where
  "firstContact = strangeMessage\<lparr>m_guild := Some ''g2''\<rparr>"

text \<open>A guild administrator, and handlers that do nothing for the commands not embedded.\<close>

definition adminMessage :: Message where
  "adminMessage = \<lparr>m_authorBot = False, m_authorId = ''9'', m_authorTag = ''Op#0009'',
     m_guild = Some ''g1'', m_member = Some \<lparr>mb_roles = [], mb_administrator = True\<rparr>,
     m_content = ''!add netflix john@example.com:password123'', m_dmOpen = True\<rparr>"

definition ignoreOthers :: "Command \<Rightarrow> Handler" where
  "ignoreOthers c env now msg args settings st = (st, noOutput)"




section \<open>Measures used in the statements\<close>

text \<open>
  The number of log entries a generate attempt appends, by the reply it ends with: the
  store logs each \<open>updateAccount\<close>, the handler logs a claim and an empty stock.
\<close>

definition entriesLogged :: "Reply \<Rightarrow> nat" where
  "entriesLogged r =
     (case r of StockExhausted _ \<Rightarrow> 1 | GenerateSuccess _ \<Rightarrow> 2 | DMError \<Rightarrow> 3 | _ \<Rightarrow> 0)"

text \<open>
  The order the specification asks of the selection: older \<open>createdAt\<close> first, equal
  times by lower id.
\<close>

definition fifoBefore :: "Account \<Rightarrow> Account \<Rightarrow> bool" where
  "fifoBefore a b =
     (a_createdAt a < a_createdAt b \<or> (a_createdAt a = a_createdAt b \<and> a_id a \<le> a_id b))"

text \<open>Every account of stored status \<open>available\<close> belongs to the given category.\<close>

definition stockOnlyIn :: "Store \<Rightarrow> nat \<Rightarrow> bool" where
  "stockOnlyIn st cid =
     (\<forall>x \<in> set (accounts st). a_status x = ''available'' \<longrightarrow> a_categoryId x = cid)"

text \<open>The store with every scope's cooldown replaced.\<close>

definition setCooldowns :: "(BotSettings \<Rightarrow> int) \<Rightarrow> Store \<Rightarrow> Store" where
  "setCooldowns f st = st\<lparr>botSettings := map (\<lambda>s. s\<lparr>s_cooldown := f s\<rparr>) (botSettings st)\<rparr>"

text \<open>What \<open>generateSelect\<close> decides, without the store it leaves.\<close>

datatype Choice = Stop Outbox | Pick Account AccountCategory

definition choiceOf :: "Selection \<Rightarrow> Choice" where
  "choiceOf s = (case s of Returned st out \<Rightarrow> Stop out | Selected a c \<Rightarrow> Pick a c)"

text \<open>The first word after the prefix is none of the labels of the \<open>switch\<close>.\<close>

definition namesNoCommand :: "string \<Rightarrow> string \<Rightarrow> bool" where
  "namesNoCommand pre content =
     (case fst (parseCommand pre content) of None \<Rightarrow> True | Some w \<Rightarrow> commandNamed w = None)"


section \<open>Facts about the store and the generate handler\<close>

lemma getAccounts_available:
  "getAccounts st (Some cid) (Some ''available'') None =
     filter (\<lambda>a. a_status a = ''available'') (accounts st)"
  by (simp add: getAccounts_def)

lemma stock_in_category:
  "stockOnlyIn st cid \<Longrightarrow>
   filter (\<lambda>a. a_status a = ''available'') (accounts st) =
   filter (\<lambda>a. a_categoryId a = cid \<and> a_status a = ''available'') (accounts st)"
  unfolding stockOnlyIn_def by (rule filter_cong) auto

lemma generateSelect_found:
  assumes "hasPermission env st msg" and "toLowerCase n \<noteq> []"
    and "getCategoryByName st (toLowerCase n) = Some c"
  shows "generateSelect env now msg (n # rest) settings st =
     (case filter (\<lambda>a. a_status a = ''available'') (accounts st) of
        [] \<Rightarrow> Returned
                (createLog now ''warning'' ''ACCOUNT_GENERATION_FAILED''
                   (''No available accounts for '' @ toLowerCase n) None st)
                (replyWith (StockExhausted (c_name c)))
      | a # _ \<Rightarrow> Selected a c)"
  using assms by (simp add: generateSelect_def getAccounts_available Let_def)

lemma findFirst_None: "(findFirst P xs = None) = (\<forall>x\<in>set xs. \<not> P x)"
  by (induction xs) auto

lemma createLog_fields [simp]:
  "accounts (createLog now ty ac m u st) = accounts st"
  "categories (createLog now ty ac m u st) = categories st"
  "botSettings (createLog now ty ac m u st) = botSettings st"
  "users (createLog now ty ac m u st) = users st"
  "logs (createLog now ty ac m u st) = logs st @ [\<lparr>l_id = logSeq st, l_type = ty, l_action = ac, l_message = m,
              l_userId = u, l_createdAt = now\<rparr>]"
  by (simp_all add: createLog_def)

lemma applyUpdate_id [simp]: "a_id (applyUpdate now up a) = a_id a"
  by (simp add: applyUpdate_def)

lemma updateAccount_present:
  assumes "a \<in> set (accounts st)"
  shows "accounts (snd (updateAccount now (a_id a) up st)) =
           filter (\<lambda>x. a_id x \<noteq> a_id a) (accounts st) @
           map (applyUpdate now up) (filter (\<lambda>x. a_id x = a_id a) (accounts st))"
    and "length (logs (snd (updateAccount now (a_id a) up st))) = Suc (length (logs st))"
    and "categories (snd (updateAccount now (a_id a) up st)) = categories st"
    and "botSettings (snd (updateAccount now (a_id a) up st)) = botSettings st"
    and "users (snd (updateAccount now (a_id a) up st)) = users st"
proof -
  from assms have "findFirst (\<lambda>x. a_id x = a_id a) (accounts st) \<noteq> None"
    by (auto simp: findFirst_None)
  then obtain b where b: "getAccount st (a_id a) = Some b"
    by (auto simp: getAccount_def)
  show "accounts (snd (updateAccount now (a_id a) up st)) =
           filter (\<lambda>x. a_id x \<noteq> a_id a) (accounts st) @
           map (applyUpdate now up) (filter (\<lambda>x. a_id x = a_id a) (accounts st))"
    and "length (logs (snd (updateAccount now (a_id a) up st))) = Suc (length (logs st))"
    and "categories (snd (updateAccount now (a_id a) up st)) = categories st"
    and "botSettings (snd (updateAccount now (a_id a) up st)) = botSettings st"
    and "users (snd (updateAccount now (a_id a) up st)) = users st"
    using b by (simp_all add: updateAccount_def Let_def)
qed

lemma Selected_in_store:
  "generateSelect env now msg args settings st = Selected a c \<Longrightarrow> a \<in> set (accounts st)"
proof -
  assume sel: "generateSelect env now msg args settings st = Selected a c"
  then have "\<exists>cid rest. getAccounts st (Some cid) (Some ''available'') None = a # rest"
    by (auto simp: generateSelect_def Let_def split: if_splits list.splits option.splits)
  then obtain rest where "filter (\<lambda>a. a_status a = ''available'') (accounts st) = a # rest"
    by (auto simp: getAccounts_available)
  then have "a \<in> set (filter (\<lambda>a. a_status a = ''available'') (accounts st))"
    by simp
  then show ?thesis by simp
qed

lemma generateMark_counts:
  assumes "a \<in> set (accounts st)"
  shows "\<exists>r. replies (snd (generateMark now msg a c st)) = [r] \<and>
     length (logs (fst (generateMark now msg a c st))) = length (logs st) + entriesLogged r"
proof -
  let ?up = "noUpdate\<lparr>up_status := Some ''generated'',
                     up_generatedBy := Some (Some (m_authorTag msg)),
                     up_generatedAt := Some (Some now)\<rparr>"
  let ?st1 = "snd (updateAccount now (a_id a) ?up st)"
  let ?st2 = "createLog now ''success'' ''ACCOUNT_GENERATED''
                  (''Account generated for '' @ m_authorTag msg @ '': '' @ a_email a @
                     '' ('' @ c_name c @ '')'') None ?st1"
  have l1: "length (logs ?st1) = Suc (length (logs st))"
    using assms by (rule updateAccount_present(2))
  have "accounts ?st2 = filter (\<lambda>x. a_id x \<noteq> a_id a) (accounts st) @
           map (applyUpdate now ?up) (filter (\<lambda>x. a_id x = a_id a) (accounts st))"
    using assms by (simp add: updateAccount_present(1))
  moreover from assms have "a \<in> set (filter (\<lambda>x. a_id x = a_id a) (accounts st))"
    by simp
  ultimately have "applyUpdate now ?up a \<in> set (accounts ?st2)"
    by (simp only: set_append set_map) blast
  from updateAccount_present(2) [OF this, of now "noUpdate\<lparr>up_status := Some ''available''\<rparr>"]
  have l3: "length (logs (snd (updateAccount now (a_id a) (noUpdate\<lparr>up_status := Some ''available''\<rparr>) ?st2))) = Suc (length (logs ?st2))"
    by simp
  show ?thesis
  proof (cases "m_dmOpen msg")
    case True
    then show ?thesis using l1 by (simp add: generateMark_def Let_def entriesLogged_def)
  next
    case False
    then show ?thesis using l1 l3 by (simp add: generateMark_def Let_def entriesLogged_def replyWith_def)
  qed
qed


lemma generateMark_outbox:
  "snd (generateMark now msg a c st) =
     (if m_dmOpen msg then
        \<lparr>replies = [GenerateSuccess (c_name c)],
         dms = [AccountDetails (c_name c) (a_email a) (a_password a) (a_expiresAt a)]\<rparr>
      else replyWith DMError)"
  by (simp add: generateMark_def Let_def)

lemma findFirst_map:
  "(\<And>x. P (h x) = P x) \<Longrightarrow> findFirst P (map h xs) = map_option h (findFirst P xs)"
  by (induction xs) simp_all

lemma getBotSettings_setCooldowns:
  "getBotSettings (setCooldowns f st) g =
     map_option (\<lambda>s. s\<lparr>s_cooldown := f s\<rparr>) (getBotSettings st g)"
  by (simp add: getBotSettings_def setCooldowns_def findFirst_map)

lemma isAdmin_setCooldowns: "isAdmin env (setCooldowns f st) msg = isAdmin env st msg"
  by (simp add: isAdmin_def getBotSettings_setCooldowns split: option.splits)

lemma hasPermission_setCooldowns:
  "hasPermission env (setCooldowns f st) msg = hasPermission env st msg"
  by (simp add: hasPermission_def getBotSettings_setCooldowns isAdmin_setCooldowns
      split: option.splits)

lemma setCooldowns_fields [simp]:
  "accounts (setCooldowns f st) = accounts st"
  "categories (setCooldowns f st) = categories st"
  by (simp_all add: setCooldowns_def)

lemma generateSelect_no_cooldown:
  "choiceOf (generateSelect env now' msg args (settings\<lparr>s_cooldown := c\<rparr>) (setCooldowns f st)) =
   choiceOf (generateSelect env now msg args settings st)"
  by (simp add: generateSelect_def choiceOf_def hasPermission_setCooldowns Let_def
      getCategoryByName_def getCategories_def getAccounts_def
      split: list.splits option.splits)

lemma applyUpdate_generated:
  "applyUpdate now (noUpdate\<lparr>up_status := Some ''generated'',
       up_generatedBy := Some (Some tag), up_generatedAt := Some (Some now)\<rparr>) x =
   x\<lparr>a_status := ''generated'', a_generatedBy := Some tag, a_generatedAt := Some now,
      a_updatedAt := now\<rparr>"
  by (simp add: applyUpdate_def noUpdate_def)

lemma generateMark_delivered:
  assumes "a \<in> set (accounts st)" and "m_dmOpen msg"
  shows "accounts (fst (generateMark now msg a c st)) =
     filter (\<lambda>x. a_id x \<noteq> a_id a) (accounts st) @
     map (\<lambda>x. x\<lparr>a_status := ''generated'', a_generatedBy := Some (m_authorTag msg),
                  a_generatedAt := Some now, a_updatedAt := now\<rparr>)
       (filter (\<lambda>x. a_id x = a_id a) (accounts st))"
proof -
  have "applyUpdate now (noUpdate\<lparr>up_status := Some ''generated'',
       up_generatedBy := Some (Some (m_authorTag msg)), up_generatedAt := Some (Some now)\<rparr>) =
     (\<lambda>x. x\<lparr>a_status := ''generated'', a_generatedBy := Some (m_authorTag msg),
                  a_generatedAt := Some now, a_updatedAt := now\<rparr>)"
    by (rule ext) (rule applyUpdate_generated)
  with assms show ?thesis
    by (simp add: generateMark_def Let_def updateAccount_present(1))
qed

lemma last_candidate_gone:
  assumes "filter (\<lambda>x. a_status x = ''available'') xs = [a]"
  shows "filter (\<lambda>x. a_status x = ''available'')
           (filter (\<lambda>x. a_id x \<noteq> a_id a) xs @
            map (\<lambda>x. x\<lparr>a_status := ''generated'', a_generatedBy := g,
                        a_generatedAt := t, a_updatedAt := u\<rparr>)
              (filter (\<lambda>x. a_id x = a_id a) xs)) = []"
proof -
  let ?P = "\<lambda>x. a_status x = ''available''"
  have only: "x = a" if "x \<in> set xs" and "?P x" for x
  proof -
    from that have "x \<in> set (filter ?P xs)" by simp
    with assms show "x = a" by simp
  qed
  have untouched: "filter ?P (filter (\<lambda>x. a_id x \<noteq> a_id a) xs) = []"
  proof -
    have "\<forall>x \<in> set (filter (\<lambda>x. a_id x \<noteq> a_id a) xs). \<not> ?P x"
    proof
      fix x
      assume "x \<in> set (filter (\<lambda>x. a_id x \<noteq> a_id a) xs)"
      then have x: "x \<in> set xs" and other: "a_id x \<noteq> a_id a"
        by simp_all
      show "\<not> ?P x"
      proof
        assume "?P x"
        with x have "x = a" by (rule only)
        with other show False by simp
      qed
    qed
    then show ?thesis
      by (simp only: filter_empty_conv)
  qed
  have rewritten: "filter ?P
      (map (\<lambda>x. x\<lparr>a_status := ''generated'', a_generatedBy := g,
                        a_generatedAt := t, a_updatedAt := u\<rparr>)
              (filter (\<lambda>x. a_id x = a_id a) xs)) = []"
    by (simp add: filter_map comp_def)
  show ?thesis
    by (simp only: filter_append untouched rewritten append_Nil)
qed

lemma sorted_wrt_filter_hd:
  assumes "sorted_wrt R xs" and "filter P xs = a # others" and "\<And>x. R x x"
  shows "\<forall>b \<in> set (a # others). R a b"
proof -
  have "sorted_wrt R (filter P xs)" using assms(1) by (rule sorted_wrt_filter)
  with assms(2) have "sorted_wrt R (a # others)" by simp
  with assms(3) show ?thesis by auto
qed

lemma updateAccount_others:
  "categories (snd (updateAccount now i up st)) = categories st"
  "botSettings (snd (updateAccount now i up st)) = botSettings st"
  "users (snd (updateAccount now i up st)) = users st"
  by (simp_all add: updateAccount_def Let_def split: option.splits)

lemma generateMark_others:
  "categories (fst (generateMark now msg a c st)) = categories st"
  "botSettings (fst (generateMark now msg a c st)) = botSettings st"
  "users (fst (generateMark now msg a c st)) = users st"
  by (simp_all add: generateMark_def Let_def updateAccount_others)

lemma isAdmin_cong_settings:
  "botSettings st' = botSettings st \<Longrightarrow> isAdmin env st' msg = isAdmin env st msg"
  by (simp add: isAdmin_def getBotSettings_def split: option.splits)

lemma hasPermission_cong_settings:
  "botSettings st' = botSettings st \<Longrightarrow> hasPermission env st' msg = hasPermission env st msg"
  using isAdmin_cong_settings [of st' st env msg]
  by (simp add: hasPermission_def getBotSettings_def split: option.splits)

lemma getCategoryByName_cong:
  "categories st' = categories st \<Longrightarrow> getCategoryByName st' n = getCategoryByName st n"
  by (simp add: getCategoryByName_def)

lemma resolveSettings_tables:
  "accounts (snd (resolveSettings now msg st)) = accounts st"
  "categories (snd (resolveSettings now msg st)) = categories st"
  "logs (snd (resolveSettings now msg st)) = logs st"
  "users (snd (resolveSettings now msg st)) = users st"
  by (simp_all add: resolveSettings_def createBotSettings_def Let_def split: option.splits)

lemma resolveSettings_configured:
  "(case m_guild msg of None \<Rightarrow> True | Some g \<Rightarrow> getBotSettings st g \<noteq> None) \<Longrightarrow>
   snd (resolveSettings now msg st) = st"
  by (auto simp: resolveSettings_def split: option.splits)

lemma resolveSettings_first_message:
  "m_guild msg = Some g \<Longrightarrow> getBotSettings st g = None \<Longrightarrow>
   botSettings (snd (resolveSettings now msg st)) = botSettings st @
     [\<lparr>s_id = settingsSeq st, s_guildId = g, s_prefix = ''!'', s_allowedRoles = Some [],
       s_adminRoles = Some [], s_cooldown = 3600, s_createdAt = now, s_updatedAt = now\<rparr>]"
  by (simp add: resolveSettings_def createBotSettings_def Let_def)

lemma handleGenerate_outbox:
  "snd (handleGenerateCommand env now msg args settings st) =
     (case choiceOf (generateSelect env now msg args settings st) of
        Stop out \<Rightarrow> out
      | Pick a c \<Rightarrow> snd (generateMark now msg a c st))"
  by (simp add: handleGenerateCommand_def choiceOf_def split: Selection.splits)

lemma generateSelect_Returned_others:
  "generateSelect env now msg args settings st = Returned st' out \<Longrightarrow>
   categories st' = categories st \<and> botSettings st' = botSettings st \<and> users st' = users st"
  by (auto simp: generateSelect_def Let_def split: if_splits list.splits option.splits)

lemma task_runs_handler:
  "runSchedule env now [False, False] (st, Pending msg args settings, t) =
     (fst (handleGenerateCommand env now msg args settings st),
      Done (snd (handleGenerateCommand env now msg args settings st)), t)"
  by (cases "generateSelect env now msg args settings st")
     (simp_all add: stepTask_def handleGenerateCommand_def split_beta)

lemma splitOn_nonempty: "splitOn c s \<noteq> []"
  by (induction s) (auto split: list.splits)

lemma splitOn_two:
  "c \<in> set s \<Longrightarrow> \<exists>a b r. splitOn c s = a # b # r"
proof (induction s)
  case Nil
  then show ?case by simp
next
  case (Cons x xs)
  show ?case
  proof (cases "x = c")
    case True
    obtain b r where "splitOn c xs = b # r"
      using splitOn_nonempty [of c xs] by (cases "splitOn c xs") auto
    with True show ?thesis by simp
  next
    case False
    with Cons.prems have "c \<in> set xs" by simp
    then obtain a b r where "splitOn c xs = a # b # r"
      using Cons.IH by blast
    with False show ?thesis by simp
  qed
qed

text \<open>
  The query by status alone at work: with no stock in the category asked for, the handler
  delivers the first account in stock of any category, under the name of the category
  asked for.
\<close>

lemma status_only_query_serves_other_category:
  "filter (\<lambda>a. a_categoryId a = c_id streaming) (accounts (twoCategories [freeVpn])) = [] \<and>
   snd (handleGenerateCommand noOwner 100 (requester ''1'' ''U1#0001'' True) [''streaming'']
          scopeG1 (twoCategories [freeVpn])) =
     \<lparr>replies = [GenerateSuccess ''Streaming''],
      dms = [AccountDetails ''Streaming'' ''vpn@x.com'' ''pw7'' None]\<rparr>"
  by code_simp


section \<open>Permission check\<close>

text \<open>
  Claim C6. The user-level permission check returns true whenever the scope's list of
  allowed roles is empty, and it returns false exactly when that list is non-empty, the
  requester holds none of the listed roles, and the requester is not an admin.
\<close>

theorem hasPermission_user_level:
  "(allowedRoleIds st msg = [] \<longrightarrow> hasPermission env st msg) \<and>
   (\<not> hasPermission env st msg) =
     (allowedRoleIds st msg \<noteq> [] \<and>
      \<not> some (memberHasRole msg) (allowedRoleIds st msg) \<and>
      \<not> isAdmin env st msg)"
  by (simp add: hasPermission_def allowedRoleIds_def split: option.splits)

theorem hasPermission_user_level_witness:
  "allowedRoleIds (storeWith [accountA]) (requester ''1'' ''U1#0001'' True) = [] \<and>
   hasPermission noOwner (storeWith [accountA]) (requester ''1'' ''U1#0001'' True) \<and>
   allowedRoleIds (gated [accountA]) (requester ''1'' ''U1#0001'' True) = [''r1''] \<and>
   \<not> hasPermission noOwner (gated [accountA]) (requester ''1'' ''U1#0001'' True)"
proof -
  let ?m = "requester ''1'' ''U1#0001'' True"
  have open_scope: "allowedRoleIds (storeWith [accountA]) ?m = []"
    by code_simp
  have closed_scope: "allowedRoleIds (gated [accountA]) ?m = [''r1'']"
    by code_simp
  have no_role: "\<not> some (memberHasRole ?m) [''r1'']"
    by code_simp
  have no_admin: "\<not> isAdmin noOwner (gated [accountA]) ?m"
    by code_simp
  from hasPermission_user_level [of "storeWith [accountA]" ?m noOwner] open_scope
  have allowed: "hasPermission noOwner (storeWith [accountA]) ?m"
    by blast
  from hasPermission_user_level [of "gated [accountA]" ?m noOwner] closed_scope no_role no_admin
  have denied: "\<not> hasPermission noOwner (gated [accountA]) ?m"
    by simp
  from open_scope allowed closed_scope denied show ?thesis
    by blast
qed


section \<open>Status and generation fields\<close>

text \<open>
  Claim C4. Every change of an account should keep \<open>status = available\<close> together with
  empty \<open>generatedBy\<close> and \<open>generatedAt\<close>. When the private message cannot be delivered,
  the generate handler sets only the status back: the account is left \<open>available\<close> with
  the requester and the time of the failed claim still recorded.
\<close>

theorem dm_failure_keeps_generation_fields:
  "accounts (fst (handleGenerateCommand noOwner 100 (requester ''1'' ''U1#0001'' False)
       [''streaming''] scopeG1 (storeWith [accountA]))) =
     [accountA\<lparr>a_status := ''available'', a_generatedBy := Some ''U1#0001'',
        a_generatedAt := Some 100, a_updatedAt := 100\<rparr>] \<and>
   snd (handleGenerateCommand noOwner 100 (requester ''1'' ''U1#0001'' False)
       [''streaming''] scopeG1 (storeWith [accountA])) = replyWith DMError"
  by code_simp


section \<open>Replies and log entries of a claim\<close>

text \<open>
  Claim C7, as the handler has it. Every generate attempt ends with exactly one channel
  reply. The number of log entries it appends depends on the outcome: none when permission
  is denied, the service is missing from the command or unknown; one when the stock is
  empty; two for a delivered account (the store's \<open>ACCOUNT_UPDATED\<close> and the handler's
  \<open>ACCOUNT_GENERATED\<close>); three when the private message fails. The private message with
  the credentials is sent once, for a delivered account only.
\<close>

theorem generate_replies_and_log_entries:
  "\<exists>r. replies (snd (handleGenerateCommand env now msg args settings st)) = [r] \<and>
     length (logs (fst (handleGenerateCommand env now msg args settings st))) =
       length (logs st) + entriesLogged r \<and>
     length (dms (snd (handleGenerateCommand env now msg args settings st))) =
       (case r of GenerateSuccess _ \<Rightarrow> 1 | _ \<Rightarrow> 0)"
proof (cases "generateSelect env now msg args settings st")
  case (Returned st' out)
  then have "(st' = st \<and> (\<exists>r. out = replyWith r \<and> entriesLogged r = 0 \<and>
                 (case r of GenerateSuccess _ \<Rightarrow> False | _ \<Rightarrow> True))) \<or>
     (\<exists>m n. st' = createLog now ''warning'' ''ACCOUNT_GENERATION_FAILED'' m None st \<and>
            out = replyWith (StockExhausted n))"
    by (auto simp: generateSelect_def Let_def entriesLogged_def
        split: if_splits list.splits option.splits)
  with Returned show ?thesis
    by (auto simp: handleGenerateCommand_def replyWith_def entriesLogged_def split: Reply.splits)
next
  case (Selected a c)
  then have "a \<in> set (accounts st)"
    by (rule Selected_in_store)
  from generateMark_counts [OF this, of now msg c]
  obtain r where r: "replies (snd (generateMark now msg a c st)) = [r]"
    and l: "length (logs (fst (generateMark now msg a c st))) = length (logs st) + entriesLogged r"
    by blast
  from r have "length (dms (snd (generateMark now msg a c st))) =
       (case r of GenerateSuccess _ \<Rightarrow> 1 | _ \<Rightarrow> 0)"
    by (auto simp: generateMark_outbox replyWith_def split: if_splits)
  with r l Selected show ?thesis
    by (simp add: handleGenerateCommand_def)
qed

text \<open>
  The claim's "exactly one log entry" fails for a delivered account: two entries are
  appended.
\<close>

theorem delivered_claim_logs_twice:
  "replies (snd (handleGenerateCommand noOwner 100 (requester ''1'' ''U1#0001'' True)
       [''streaming''] scopeG1 (storeWith [accountA]))) = [GenerateSuccess ''Streaming''] \<and>
   logs (storeWith [accountA]) = [] \<and>
   map l_action (logs (fst (handleGenerateCommand noOwner 100 (requester ''1'' ''U1#0001'' True)
       [''streaming''] scopeG1 (storeWith [accountA])))) =
     [''ACCOUNT_UPDATED'', ''ACCOUNT_GENERATED'']"
  by code_simp


section \<open>Cooldown\<close>

text \<open>
  Claim C2, as the handler has it. The generate handler makes no cooldown check: its reply
  and its private message are the same whatever the cooldown of the settings passed in and
  of the stored scopes, and whatever the time of the call. It keeps no cooldown record: the
  bot settings, the categories and the users are left as they were (the time of a claim
  goes into the account's \<open>generatedAt\<close> and the log only).
\<close>

theorem generate_without_cooldown:
  "snd (handleGenerateCommand env now' msg args (settings\<lparr>s_cooldown := c\<rparr>) (setCooldowns f st)) =
     snd (handleGenerateCommand env now msg args settings st) \<and>
   botSettings (fst (handleGenerateCommand env now msg args settings st)) = botSettings st \<and>
   categories (fst (handleGenerateCommand env now msg args settings st)) = categories st \<and>
   users (fst (handleGenerateCommand env now msg args settings st)) = users st"
proof -
  have "snd (handleGenerateCommand env now' msg args (settings\<lparr>s_cooldown := c\<rparr>) (setCooldowns f st)) =
     snd (handleGenerateCommand env now msg args settings st)"
    unfolding handleGenerate_outbox generateSelect_no_cooldown [where now = now]
    by (simp add: generateMark_outbox split: Choice.splits)
  moreover have "botSettings (fst (handleGenerateCommand env now msg args settings st)) = botSettings st \<and>
   categories (fst (handleGenerateCommand env now msg args settings st)) = categories st \<and>
   users (fst (handleGenerateCommand env now msg args settings st)) = users st"
    by (cases "generateSelect env now msg args settings st")
       (simp_all add: handleGenerateCommand_def generateMark_others generateSelect_Returned_others)
  ultimately show ?thesis by simp
qed

text \<open>
  The claim's \<open>CooldownActive\<close> fails: with a cooldown of 3600 seconds, a second claim by
  the same requester one second (1000 ms) after a successful one is served the next
  account.
\<close>

theorem second_claim_within_cooldown_succeeds:
  "s_cooldown scopeG1 = 3600 \<and>
   snd (handleGenerateCommand noOwner 100000 (requester ''1'' ''U1#0001'' True)
          [''streaming''] scopeG1 (storeWith [accountA, accountB])) =
     \<lparr>replies = [GenerateSuccess ''Streaming''],
      dms = [AccountDetails ''Streaming'' ''a@x.com'' ''pw1'' None]\<rparr> \<and>
   snd (handleGenerateCommand noOwner 101000 (requester ''1'' ''U1#0001'' True)
          [''streaming''] scopeG1
          (fst (handleGenerateCommand noOwner 100000 (requester ''1'' ''U1#0001'' True)
                  [''streaming''] scopeG1 (storeWith [accountA, accountB])))) =
     \<lparr>replies = [GenerateSuccess ''Streaming''],
      dms = [AccountDetails ''Streaming'' ''b@x.com'' ''pw2'' None]\<rparr>"
  by code_simp


section \<open>Expiry\<close>





section \<open>Selection order\<close>

text \<open>
  Claim C5, as the handler has it. For a permitted requester and an existing category
  with candidates, in a store whose accounts in stock all belong to that category, the
  generate handler selects the first row that the store returns among the category's rows
  with stored status \<open>available\<close> (the query has no \<open>orderBy\<close>); the choice is a function
  of the stored rows and their order. When the store returns the rows in ascending
  (createdAt, id) order, that row is the oldest candidate, ties by lowest id.
\<close>

theorem generate_takes_first_row:
  assumes "hasPermission env st msg" and "toLowerCase n \<noteq> []"
    and "getCategoryByName st (toLowerCase n) = Some c"
    and "stockOnlyIn st (c_id c)"
    and "filter (\<lambda>a. a_categoryId a = c_id c \<and> a_status a = ''available'') (accounts st) = a # others"
  shows "generateSelect env now msg (n # rest) settings st = Selected a c \<and>
         (sorted_wrt fifoBefore (accounts st) \<longrightarrow> (\<forall>b \<in> set (a # others). fifoBefore a b))"
proof -
  have "filter (\<lambda>a. a_status a = ''available'') (accounts st) = a # others"
    using stock_in_category [OF assms(4)] assms(5) by simp
  then have "generateSelect env now msg (n # rest) settings st = Selected a c"
    by (simp add: generateSelect_found [OF assms(1-3)])
  moreover have "sorted_wrt fifoBefore (accounts st) \<longrightarrow> (\<forall>b \<in> set (a # others). fifoBefore a b)"
  proof
    assume "sorted_wrt fifoBefore (accounts st)"
    then show "\<forall>b \<in> set (a # others). fifoBefore a b"
      using assms(5) by (rule sorted_wrt_filter_hd) (simp add: fifoBefore_def)
  qed
  ultimately show ?thesis by simp
qed

theorem generate_takes_first_row_witness:
  "stockOnlyIn (twoCategories [takenVpn, accountA, accountB]) (c_id streaming) \<and>
   sorted_wrt fifoBefore (accounts (twoCategories [takenVpn, accountA, accountB])) \<and>
   generateSelect noOwner 100 (requester ''1'' ''U1#0001'' True) [''streaming''] scopeG1
     (twoCategories [takenVpn, accountA, accountB]) = Selected accountA streaming \<and>
   fifoBefore accountA accountA \<and> fifoBefore accountA accountB"
proof -
  let ?m = "requester ''1'' ''U1#0001'' True"
  let ?st = "twoCategories [takenVpn, accountA, accountB]"
  have p: "hasPermission noOwner ?st ?m"
    by code_simp
  have n: "toLowerCase ''streaming'' \<noteq> []"
    by code_simp
  have c: "getCategoryByName ?st (toLowerCase ''streaming'') = Some streaming"
    by code_simp
  have o: "stockOnlyIn ?st (c_id streaming)"
    by code_simp
  have f: "filter (\<lambda>a. a_categoryId a = c_id streaming \<and> a_status a = ''available'')
             (accounts ?st) = accountA # [accountB]"
    by code_simp
  have s: "sorted_wrt fifoBefore (accounts ?st)"
    by code_simp
  from generate_takes_first_row [OF p n c o f, of 100 "[]" scopeG1] s o show ?thesis
    by simp
qed

text \<open>
  The claim fails when the store returns a newer row first, as a database may after the
  older row was rewritten by an update: \<open>b@x.com\<close> (created at 20, id 2) is delivered
  although \<open>a@x.com\<close> (created at 10, id 1) is available.
\<close>

theorem newer_account_is_handed_out:
  "fifoBefore restockedA accountB \<and> \<not> fifoBefore accountB restockedA \<and>
   a_status restockedA = ''available'' \<and>
   snd (handleGenerateCommand noOwner 100 (requester ''1'' ''U1#0001'' True) [''streaming'']
          scopeG1 (storeWith [accountB, restockedA])) =
     \<lparr>replies = [GenerateSuccess ''Streaming''],
      dms = [AccountDetails ''Streaming'' ''b@x.com'' ''pw2'' None]\<rparr>"
  by code_simp

section \<open>Two claims for the last account\<close>

text \<open>
  Claim C1, as the handler has it. When two generate handlers for a category with exactly
  one row of stored status \<open>available\<close>, in a store with no other account in stock, run
  one after the other (the second starts after the first has finished), both requesters
  are permitted and the first one's private message is delivered, the first is sent the
  account and the row is rewritten as generated for it, and the second is told that the
  stock is empty.
\<close>

theorem sequential_claims_of_last_account:
  assumes p1: "hasPermission env st m1" and p2: "hasPermission env st m2"
    and n: "toLowerCase n \<noteq> []"
    and cat: "getCategoryByName st (toLowerCase n) = Some c"
    and only: "stockOnlyIn st (c_id c)"
    and one: "filter (\<lambda>x. a_categoryId x = c_id c \<and> a_status x = ''available'') (accounts st) = [a]"
    and dm: "m_dmOpen m1"
  shows "snd (runSchedule env now [False, False, True, True]
                (st, Pending m1 (n # r1) s1, Pending m2 (n # r2) s2)) =
           (Done \<lparr>replies = [GenerateSuccess (c_name c)],
                   dms = [AccountDetails (c_name c) (a_email a) (a_password a) (a_expiresAt a)]\<rparr>,
            Done (replyWith (StockExhausted (c_name c)))) \<and>
         accounts (fst (runSchedule env now [False, False, True, True]
                (st, Pending m1 (n # r1) s1, Pending m2 (n # r2) s2))) =
           filter (\<lambda>x. a_id x \<noteq> a_id a) (accounts st) @
           map (\<lambda>x. x\<lparr>a_status := ''generated'', a_generatedBy := Some (m_authorTag m1),
                        a_generatedAt := Some now, a_updatedAt := now\<rparr>)
             (filter (\<lambda>x. a_id x = a_id a) (accounts st))"
proof -
  let ?P = "\<lambda>x. a_status x = ''available''"
  let ?st1 = "fst (generateMark now m1 a c st)"
  let ?after = "filter (\<lambda>x. a_id x \<noteq> a_id a) (accounts st) @
           map (\<lambda>x. x\<lparr>a_status := ''generated'', a_generatedBy := Some (m_authorTag m1),
                        a_generatedAt := Some now, a_updatedAt := now\<rparr>)
             (filter (\<lambda>x. a_id x = a_id a) (accounts st))"
  let ?log = "createLog now ''warning'' ''ACCOUNT_GENERATION_FAILED''
                   (''No available accounts for '' @ toLowerCase n) None ?st1"
  let ?won = "\<lparr>replies = [GenerateSuccess (c_name c)],
       dms = [AccountDetails (c_name c) (a_email a) (a_password a) (a_expiresAt a)]\<rparr>"
  have stock: "filter ?P (accounts st) = [a]"
    using stock_in_category [OF only] one by simp
  then have "a \<in> set (filter ?P (accounts st))" by simp
  then have mem: "a \<in> set (accounts st)" by simp
  have sel1: "generateSelect env now m1 (n # r1) s1 st = Selected a c"
    using stock by (simp add: generateSelect_found [OF p1 n cat])
  have step1: "stepTask env now (Pending m1 (n # r1) s1) st = (st, Chosen m1 a c)"
    by (simp add: stepTask_def sel1)
  have out1: "snd (generateMark now m1 a c st) = ?won"
    using dm by (simp add: generateMark_outbox)
  have step2: "stepTask env now (Chosen m1 a c) st = (?st1, Done ?won)"
    using out1 by (simp add: stepTask_def split_beta)
  have acc1: "accounts ?st1 = ?after"
    using mem dm by (rule generateMark_delivered)
  have "botSettings ?st1 = botSettings st"
    by (rule generateMark_others)
  then have "hasPermission env ?st1 m2 = hasPermission env st m2"
    by (rule hasPermission_cong_settings)
  with p2 have p2': "hasPermission env ?st1 m2"
    by simp
  have "categories ?st1 = categories st"
    by (rule generateMark_others)
  then have "getCategoryByName ?st1 (toLowerCase n) = getCategoryByName st (toLowerCase n)"
    by (rule getCategoryByName_cong)
  with cat have cat': "getCategoryByName ?st1 (toLowerCase n) = Some c"
    by simp
  have none: "filter ?P (accounts ?st1) = []"
    unfolding acc1 using stock by (rule last_candidate_gone)
  have sel2: "generateSelect env now m2 (n # r2) s2 ?st1 =
      Returned ?log (replyWith (StockExhausted (c_name c)))"
    using none by (simp add: generateSelect_found [OF p2' n cat'])
  have step3: "stepTask env now (Pending m2 (n # r2) s2) ?st1 =
      (?log, Done (replyWith (StockExhausted (c_name c))))"
    by (simp add: stepTask_def sel2)
  have step4: "stepTask env now (Done out) s = (s, Done out)" for out s
    by (simp add: stepTask_def)
  have run: "runSchedule env now [False, False, True, True]
                (st, Pending m1 (n # r1) s1, Pending m2 (n # r2) s2) =
      (?log, Done ?won, Done (replyWith (StockExhausted (c_name c))))"
    by (simp add: step1 step2 step3 step4)
  show ?thesis
    unfolding run using acc1 by simp
qed

theorem sequential_claims_of_last_account_witness:
  "stockOnlyIn (twoCategories [accountA, takenVpn]) (c_id streaming) \<and>
   filter (\<lambda>x. a_categoryId x = c_id streaming \<and> a_status x = ''available'')
     (accounts (twoCategories [accountA, takenVpn])) = [accountA] \<and>
   snd (runSchedule noOwner 100 [False, False, True, True]
          (twoCategories [accountA, takenVpn],
           Pending (requester ''1'' ''U1#0001'' True) [''streaming''] scopeG1,
           Pending (requester ''2'' ''U2#0002'' True) [''streaming''] scopeG1)) =
     (Done \<lparr>replies = [GenerateSuccess ''Streaming''],
             dms = [AccountDetails ''Streaming'' ''a@x.com'' ''pw1'' None]\<rparr>,
      Done (replyWith (StockExhausted ''Streaming''))) \<and>
   map a_email (accounts (fst (runSchedule noOwner 100 [False, False, True, True]
          (twoCategories [accountA, takenVpn],
           Pending (requester ''1'' ''U1#0001'' True) [''streaming''] scopeG1,
           Pending (requester ''2'' ''U2#0002'' True) [''streaming''] scopeG1)))) =
     [''vpn@x.com'', ''a@x.com'']"
proof -
  let ?m1 = "requester ''1'' ''U1#0001'' True"
  let ?m2 = "requester ''2'' ''U2#0002'' True"
  let ?st = "twoCategories [accountA, takenVpn]"
  let ?run = "runSchedule noOwner 100 [False, False, True, True]
          (?st, Pending ?m1 [''streaming''] scopeG1, Pending ?m2 [''streaming''] scopeG1)"
  have p1: "hasPermission noOwner ?st ?m1"
    by code_simp
  have p2: "hasPermission noOwner ?st ?m2"
    by code_simp
  have n: "toLowerCase ''streaming'' \<noteq> []"
    by code_simp
  have c: "getCategoryByName ?st (toLowerCase ''streaming'') = Some streaming"
    by code_simp
  have o: "stockOnlyIn ?st (c_id streaming)"
    by code_simp
  have one: "filter (\<lambda>x. a_categoryId x = c_id streaming \<and> a_status x = ''available'')
               (accounts ?st) = [accountA]"
    by code_simp
  have dm: "m_dmOpen ?m1"
    by code_simp
  note seq = sequential_claims_of_last_account [OF p1 p2 n c o one dm, of 100 "[]" scopeG1 "[]" scopeG1]
  from seq have "snd ?run =
     (Done \<lparr>replies = [GenerateSuccess (c_name streaming)],
             dms = [AccountDetails (c_name streaming) (a_email accountA) (a_password accountA)
                      (a_expiresAt accountA)]\<rparr>,
      Done (replyWith (StockExhausted (c_name streaming))))"
    by (rule conjunct1)
  then have out: "snd ?run =
     (Done \<lparr>replies = [GenerateSuccess ''Streaming''],
             dms = [AccountDetails ''Streaming'' ''a@x.com'' ''pw1'' None]\<rparr>,
      Done (replyWith (StockExhausted ''Streaming'')))"
    by (simp add: streaming_def accountA_def)
  from seq have "accounts (fst ?run) =
           filter (\<lambda>x. a_id x \<noteq> a_id accountA) (accounts ?st) @
           map (\<lambda>x. x\<lparr>a_status := ''generated'', a_generatedBy := Some (m_authorTag ?m1),
                        a_generatedAt := Some 100, a_updatedAt := 100\<rparr>)
             (filter (\<lambda>x. a_id x = a_id accountA) (accounts ?st))"
    by (rule conjunct2)
  then have rows: "map a_email (accounts (fst ?run)) = [''vpn@x.com'', ''a@x.com'']"
    by (simp add: twoCategories_def storeWith_def accountA_def takenVpn_def)
  from o one out rows show ?thesis
    by blast
qed

text \<open>
  The claim fails when the handlers overlap: the second handler reads the candidates
  while the first one waits between its read and its update. Both choose account
  \<open>a@x.com\<close>, both mark it, and both requesters are sent the same credentials.
\<close>

theorem interleaved_claims_share_account:
  "snd (runSchedule noOwner 100 [False, True, False, True]
     (storeWith [accountA],
      Pending (requester ''1'' ''U1#0001'' True) [''streaming''] scopeG1,
      Pending (requester ''2'' ''U2#0002'' True) [''streaming''] scopeG1)) =
   (Done \<lparr>replies = [GenerateSuccess ''Streaming''],
      dms = [AccountDetails ''Streaming'' ''a@x.com'' ''pw1'' None]\<rparr>,
    Done \<lparr>replies = [GenerateSuccess ''Streaming''],
      dms = [AccountDetails ''Streaming'' ''a@x.com'' ''pw1'' None]\<rparr>)"
  by code_simp


section \<open>Unknown commands\<close>

text \<open>
  Claim C8, as the handler has it. A message that starts with the prefix of its scope's
  settings and whose first word is none of the command names gets no reply and no private
  message, and the accounts, categories, logs and users are left as they are; nothing is
  logged as an error. The store after the message is the store after the scope's settings
  have been resolved, which happens for every message before the routing: it is the store
  itself in a direct message and in a guild that has settings, and on a guild's first
  message it has the guild's default settings row added.
\<close>

theorem unknown_command_is_ignored:
  assumes "startsWith (m_content msg) (s_prefix (fst (resolveSettings now msg st)))"
    and "namesNoCommand (s_prefix (fst (resolveSettings now msg st))) (m_content msg)"
  shows "snd (onMessage others env now msg st) = noOutput \<and>
     fst (onMessage others env now msg st) =
       (if m_authorBot msg then st else snd (resolveSettings now msg st)) \<and>
     accounts (fst (onMessage others env now msg st)) = accounts st \<and>
     categories (fst (onMessage others env now msg st)) = categories st \<and>
     logs (fst (onMessage others env now msg st)) = logs st \<and>
     users (fst (onMessage others env now msg st)) = users st \<and>
     ((case m_guild msg of None \<Rightarrow> True | Some g \<Rightarrow> getBotSettings st g \<noteq> None) \<longrightarrow>
        fst (onMessage others env now msg st) = st) \<and>
     (\<forall>g. \<not> m_authorBot msg \<and> m_guild msg = Some g \<and> getBotSettings st g = None \<longrightarrow>
        botSettings (fst (onMessage others env now msg st)) = botSettings st @
          [\<lparr>s_id = settingsSeq st, s_guildId = g, s_prefix = ''!'', s_allowedRoles = Some [],
            s_adminRoles = Some [], s_cooldown = 3600, s_createdAt = now, s_updatedAt = now\<rparr>])"
proof -
  have r: "onMessage others env now msg st =
      ((if m_authorBot msg then st else snd (resolveSettings now msg st)), noOutput)"
    using assms
    by (auto simp: onMessage_def namesNoCommand_def split_beta Let_def split: option.splits)
  show ?thesis
    unfolding r
    by (simp add: resolveSettings_tables resolveSettings_configured resolveSettings_first_message)
qed

theorem unknown_command_is_ignored_witness:
  "startsWith (m_content strangeMessage) ''!'' \<and>
   namesNoCommand ''!'' (m_content strangeMessage) \<and>
   onMessage ignoreOthers noOwner 100 strangeMessage (storeWith [accountA]) =
     (storeWith [accountA], noOutput)"
proof -
  let ?st = "storeWith [accountA]"
  have pre: "s_prefix (fst (resolveSettings 100 strangeMessage ?st)) = ''!''"
    by code_simp
  have h1: "startsWith (m_content strangeMessage) ''!''"
    by code_simp
  have h2: "namesNoCommand ''!'' (m_content strangeMessage)"
    by code_simp
  have cfg: "(case m_guild strangeMessage of None \<Rightarrow> True
              | Some g \<Rightarrow> getBotSettings ?st g \<noteq> None)"
    by code_simp
  from h1 have h1': "startsWith (m_content strangeMessage)
      (s_prefix (fst (resolveSettings 100 strangeMessage ?st)))"
    by (simp only: pre)
  from h2 have h2': "namesNoCommand (s_prefix (fst (resolveSettings 100 strangeMessage ?st)))
      (m_content strangeMessage)"
    by (simp only: pre)
  from unknown_command_is_ignored [OF h1' h2', of ignoreOthers noOwner] cfg
  have "snd (onMessage ignoreOthers noOwner 100 strangeMessage ?st) = noOutput \<and>
        fst (onMessage ignoreOthers noOwner 100 strangeMessage ?st) = ?st"
    by blast
  then have "onMessage ignoreOthers noOwner 100 strangeMessage ?st = (?st, noOutput)"
    by (simp add: prod_eq_iff)
  with h1 h2 show ?thesis
    by blast
qed

text \<open>
  The claim's "no store operation" fails on the first message of a guild: before the
  unknown word is looked at, the settings lookup stores the default settings row for guild
  \<open>g2\<close>.
\<close>

theorem first_message_of_guild_stores_settings:
  "startsWith (m_content firstContact)
     (s_prefix (fst (resolveSettings 100 firstContact (storeWith [accountA])))) \<and>
   namesNoCommand (s_prefix (fst (resolveSettings 100 firstContact (storeWith [accountA]))))
     (m_content firstContact) \<and>
   map s_guildId (botSettings (storeWith [accountA])) = [''g1''] \<and>
   map s_guildId (botSettings (fst (onMessage ignoreOthers noOwner 100 firstContact
     (storeWith [accountA])))) = [''g1'', ''g2''] \<and>
   fst (onMessage ignoreOthers noOwner 100 firstContact (storeWith [accountA])) \<noteq>
     storeWith [accountA]"
  by code_simp


section \<open>Legacy passwords\<close>




section \<open>Adding to a missing category\<close>

text \<open>
  Claim C10. When an admin's add command (a service name, then \<open>email:password\<close>) names a
  category that does not exist, the handler answers that the account was added: it first
  creates the category with that name and the description \<open><name> accounts\<close>, then inserts
  the account into it with status \<open>available\<close> and no expiry or generation data.
\<close>

theorem add_creates_missing_category:
  assumes adm: "isAdmin env st msg"
    and fmt: "includesChar details (CHR '':'')"
    and missing: "getCategoryByName st name = None"
  shows "\<exists>email password more st'.
     splitOn (CHR '':'') details = email # password # more \<and>
     handleAddCommand env now msg (name # details # rest) settings st =
       (st', replyWith (AccountAdded name email)) \<and>
     categories st' = categories st @
       [\<lparr>c_id = categorySeq st, c_name = name, c_description = Some (name @ '' accounts''),
         c_createdAt = now\<rparr>] \<and>
     accounts st' = accounts st @
       [\<lparr>a_id = accountSeq st, a_email = email, a_password = password,
         a_categoryId = categorySeq st, a_status = ''available'', a_expiresAt = None,
         a_generatedBy = None, a_generatedAt = None, a_createdAt = now, a_updatedAt = now\<rparr>]"
proof -
  from fmt have "CHR '':'' \<in> set details"
    by (simp add: includesChar_def)
  then obtain email password more where sp: "splitOn (CHR '':'') details = email # password # more"
    using splitOn_two by blast
  show ?thesis
    using adm fmt missing sp
    by (simp add: handleAddCommand_def createCategory_def createAccount_def Let_def)
qed

theorem add_creates_missing_category_witness:
  "isAdmin noOwner (storeWith []) adminMessage \<and>
   includesChar ''john@example.com:password123'' (CHR '':'') \<and>
   getCategoryByName (storeWith []) ''netflix'' = None \<and>
   snd (handleAddCommand noOwner 100 adminMessage [''netflix'', ''john@example.com:password123'']
          scopeG1 (storeWith [])) = replyWith (AccountAdded ''netflix'' ''john@example.com'') \<and>
   map c_name (categories (fst (handleAddCommand noOwner 100 adminMessage
          [''netflix'', ''john@example.com:password123''] scopeG1 (storeWith [])))) =
     [''Streaming'', ''netflix'']"
proof -
  let ?st = "storeWith []"
  let ?args = "[''netflix'', ''john@example.com:password123'']"
  have adm: "isAdmin noOwner ?st adminMessage"
    by code_simp
  have fmt: "includesChar ''john@example.com:password123'' (CHR '':'')"
    by code_simp
  have missing: "getCategoryByName ?st ''netflix'' = None"
    by code_simp
  have pieces: "splitOn (CHR '':'') ''john@example.com:password123'' =
      [''john@example.com'', ''password123'']"
    by code_simp
  from add_creates_missing_category [OF adm fmt missing, of 100 "[]" scopeG1]
  obtain email password more st' where
    sp: "splitOn (CHR '':'') ''john@example.com:password123'' = email # password # more" and
    res: "handleAddCommand noOwner 100 adminMessage ?args scopeG1 ?st =
            (st', replyWith (AccountAdded ''netflix'' email))" and
    cats: "categories st' = categories ?st @
       [\<lparr>c_id = categorySeq ?st, c_name = ''netflix'',
         c_description = Some (''netflix'' @ '' accounts''), c_createdAt = 100\<rparr>]"
    by blast
  from sp pieces have email: "email = ''john@example.com''"
    by simp
  from res email have out:
    "snd (handleAddCommand noOwner 100 adminMessage ?args scopeG1 ?st) =
       replyWith (AccountAdded ''netflix'' ''john@example.com'')"
    by simp
  from res cats have names:
    "map c_name (categories (fst (handleAddCommand noOwner 100 adminMessage ?args scopeG1 ?st))) =
       [''Streaming'', ''netflix'']"
    by (simp add: storeWith_def streaming_def)
  from adm fmt missing out names show ?thesis
    by blast
qed

end
